theory Spec2Isabelle
  imports Main "HOL-Library.Word"
begin

section \<open>The contract TrafficDePINReFiFHE\<close>

text \<open>
  A shallow embedding of the Solidity contract \<^verbatim>\<open>TrafficDePINReFiFHE\<close>.
  Storage is a record, a Solidity mapping is a total function (every key holds the
  zero value until it is written), a \<^verbatim>\<open>uint256\<close> is a 256-bit word whose
  additions are checked (Solidity 0.8 reverts with \<^verbatim>\<open>Panic(0x11)\<close> on overflow),
  and a call returns either the error it reverted with or the storage it committed.
  A reverted call leaves the storage it started from.
\<close>

subsection \<open>Data\<close>

type_synonym uint256 = "256 word"
type_synonym uint32 = "32 word"
type_synonym address = "160 word"
type_synonym bytes32 = "256 word"
type_synonym bytes = "8 word list"

text \<open>The field \<^verbatim>\<open>id\<close> of the struct is written \<open>id'\<close>: \<open>id\<close> is the identity of HOL.\<close>

record Batch =
  id' :: uint256
  isOpen :: bool
  totalEncryptedCongestionScore :: uint256
  totalEncryptedEcoScore :: uint256
  submissionCount :: uint256

record DecryptionContext =
  batchId :: uint256
  stateHash :: bytes32
  processed :: bool

datatype event =
    OwnershipTransferred address address
  | ProviderAdded address
  | ProviderRemoved address
  | ContractPaused address
  | ContractUnpaused address
  | CooldownSecondsUpdated uint256 uint256
  | BatchOpened uint256
  | BatchClosed uint256
  | DataSubmitted address uint256
  | DecryptionRequested uint256 uint256
  | DecryptionCompleted uint256 uint256 uint256 uint256

text \<open>
  The nine custom errors the contract declares, then the three other ways a call of it
  reverts: \<^verbatim>\<open>revert("...")\<close> and a failed \<^verbatim>\<open>require(..., "...")\<close>, which
  carry \<^verbatim>\<open>Error(string)\<close>; a checked arithmetic overflow, which carries
  \<^verbatim>\<open>Panic(code)\<close>; and a failed \<^verbatim>\<open>abi.decode\<close>, which carries no data.
\<close>

datatype error =
    NotOwner
  | NotProvider
  | Paused
  | CooldownActive
  | BatchNotOpen
  | InvalidBatchId
  | ReplayAttempt
  | StateMismatch
  | InvalidProof
  | Error string
  | Panic nat
  | RevertNoData

text \<open>
  The storage of one deployed instance. Beside the state variables of the source it
  holds the instance's own address (\<^verbatim>\<open>address(this)\<close>), the log of the events
  emitted so far, and the list of the calls made to \<^verbatim>\<open>FHE.requestDecryption\<close>
  (the ciphertexts passed), oldest first.
\<close>

record contract =
  owner :: address
  isProvider :: "address \<Rightarrow> bool"
  paused :: bool
  cooldownSeconds :: uint256
  lastSubmissionTime :: "address \<Rightarrow> uint256"
  lastDecryptionRequestTime :: "address \<Rightarrow> uint256"
  currentBatch :: Batch
  decryptionContexts :: "uint256 \<Rightarrow> DecryptionContext"
  address_this :: address
  events :: "event list"
  oracleRequests :: "bytes32 list list"

text \<open>
  What the contract takes from outside its source. The library record holds the pure
  functions of the FHE library and of the EVM: the homomorphic addition of two handles,
  the test that a handle is initialized, the conversion of a handle to \<^verbatim>\<open>bytes32\<close>,
  and \<^verbatim>\<open>keccak256\<close> (over the 32-byte words of an ABI encoding). The environment
  record holds what one call sees: its sender, the block's time, the request id the
  decryption oracle answers \<^verbatim>\<open>FHE.requestDecryption\<close> with, and whether
  \<^verbatim>\<open>FHE.checkSignatures\<close> accepts a request id, cleartexts and proof.
\<close>

record lib =
  FHE_add :: "uint256 \<Rightarrow> uint256 \<Rightarrow> uint256"
  FHE_isInitialized :: "uint256 \<Rightarrow> bool"
  FHE_toBytes32 :: "uint256 \<Rightarrow> bytes32"
  keccak256 :: "uint256 list \<Rightarrow> bytes32"

record env =
  msg_sender :: address
  block_timestamp :: uint256
  FHE_requestDecryption :: "bytes32 list \<Rightarrow> uint256"
  FHE_checkSignatures :: "uint256 \<Rightarrow> bytes \<Rightarrow> bytes \<Rightarrow> bool"

subsection \<open>Primitives of the language\<close>

definition checked_add :: "uint256 \<Rightarrow> uint256 \<Rightarrow> error + uint256" where
  "checked_add a b = (if unat a + unat b < 2 ^ 256 then Inr (a + b) else Inl (Panic 0x11))"

definition emit :: "event \<Rightarrow> contract \<Rightarrow> contract" where
  "emit ev s = s\<lparr>events := events s @ [ev]\<rparr>"

text \<open>
  \<^verbatim>\<open>abi.encode(cts, address(this))\<close> for a \<^verbatim>\<open>bytes32[]\<close> and an address, as its
  32-byte words: the offset of the array's data, the address, then the array's length
  and elements.
\<close>

definition abi_encode :: "bytes32 list \<Rightarrow> address \<Rightarrow> uint256 list" where
  "abi_encode cts a = [0x40, ucast a, of_nat (length cts)] @ cts"

text \<open>
  \<^verbatim>\<open>abi.decode(cleartexts, (uint32, uint32))\<close>: two big-endian 32-byte words, each of
  which must fit 32 bits; shorter data or a larger word reverts.
\<close>

definition be_nat :: "bytes \<Rightarrow> nat" where
  "be_nat bs = foldl (\<lambda>a b. a * 256 + unat b) 0 bs"

definition abi_decode :: "bytes \<Rightarrow> (uint32 \<times> uint32) option" where
  "abi_decode bs =
     (if length bs < 64 then None
      else let a = be_nat (take 32 bs); b = be_nat (take 32 (drop 32 bs))
           in if a < 2 ^ 32 \<and> b < 2 ^ 32 then Some (of_nat a, of_nat b) else None)"

subsection \<open>Modifiers\<close>

text \<open>
  A modifier takes the body it wraps (the \<^verbatim>\<open>_;\<close>) and the storage. What a modifier
  does after its body is lost with everything else when the body reverts.
\<close>

definition onlyOwner :: "env \<Rightarrow> (contract \<Rightarrow> error + contract) \<Rightarrow> contract \<Rightarrow> error + contract" where
  "onlyOwner e body s = (if msg_sender e \<noteq> owner s then Inl NotOwner else body s)"

definition onlyProvider :: "env \<Rightarrow> (contract \<Rightarrow> error + contract) \<Rightarrow> contract \<Rightarrow> error + contract" where
  "onlyProvider e body s =
     (if \<not> isProvider s (msg_sender e) then Inl NotProvider
      else case body s of
             Inl err \<Rightarrow> Inl err
           | Inr s' \<Rightarrow> Inr (s'\<lparr>lastSubmissionTime :=
                               (lastSubmissionTime s')(msg_sender e := block_timestamp e)\<rparr>))"

definition whenNotPaused :: "(contract \<Rightarrow> error + contract) \<Rightarrow> contract \<Rightarrow> error + contract" where
  "whenNotPaused body s = (if paused s then Inl Paused else body s)"

definition submissionRateLimited :: "env \<Rightarrow> (contract \<Rightarrow> error + contract) \<Rightarrow> contract \<Rightarrow> error + contract" where
  "submissionRateLimited e body s =
     (case checked_add (lastSubmissionTime s (msg_sender e)) (cooldownSeconds s) of
        Inl err \<Rightarrow> Inl err
      | Inr limit \<Rightarrow> if block_timestamp e < limit then Inl CooldownActive else body s)"

definition decryptionRateLimited :: "env \<Rightarrow> (contract \<Rightarrow> error + contract) \<Rightarrow> contract \<Rightarrow> error + contract" where
  "decryptionRateLimited e body s =
     (case checked_add (lastDecryptionRequestTime s (msg_sender e)) (cooldownSeconds s) of
        Inl err \<Rightarrow> Inl err
      | Inr limit \<Rightarrow>
          if block_timestamp e < limit then Inl CooldownActive
          else (case body s of
                  Inl err' \<Rightarrow> Inl err'
                | Inr s' \<Rightarrow> Inr (s'\<lparr>lastDecryptionRequestTime :=
                                    (lastDecryptionRequestTime s')(msg_sender e := block_timestamp e)\<rparr>)))"

subsection \<open>Constructor and functions\<close>

definition constructor :: "env \<Rightarrow> address \<Rightarrow> contract" where
  "constructor e self =
     \<lparr>owner = msg_sender e,
      isProvider = (\<lambda>_. False),
      paused = False,
      cooldownSeconds = 60,
      lastSubmissionTime = (\<lambda>_. 0),
      lastDecryptionRequestTime = (\<lambda>_. 0),
      currentBatch = \<lparr>id' = 1, isOpen = False, totalEncryptedCongestionScore = 0,
                      totalEncryptedEcoScore = 0, submissionCount = 0\<rparr>,
      decryptionContexts = (\<lambda>_. \<lparr>batchId = 0, stateHash = 0, processed = False\<rparr>),
      address_this = self,
      events = [],
      oracleRequests = []\<rparr>"

definition transferOwnership :: "env \<Rightarrow> address \<Rightarrow> contract \<Rightarrow> error + contract" where
  "transferOwnership e newOwner =
     onlyOwner e (\<lambda>s. Inr ((emit (OwnershipTransferred (owner s) newOwner) s)\<lparr>owner := newOwner\<rparr>))"

definition addProvider :: "env \<Rightarrow> address \<Rightarrow> contract \<Rightarrow> error + contract" where
  "addProvider e provider =
     onlyOwner e (\<lambda>s.
       if \<not> isProvider s provider
       then Inr (emit (ProviderAdded provider) (s\<lparr>isProvider := (isProvider s)(provider := True)\<rparr>))
       else Inr s)"

definition removeProvider :: "env \<Rightarrow> address \<Rightarrow> contract \<Rightarrow> error + contract" where
  "removeProvider e provider =
     onlyOwner e (\<lambda>s.
       if isProvider s provider
       then Inr (emit (ProviderRemoved provider) (s\<lparr>isProvider := (isProvider s)(provider := False)\<rparr>))
       else Inr s)"

definition pause :: "env \<Rightarrow> contract \<Rightarrow> error + contract" where
  "pause e =
     onlyOwner e (whenNotPaused (\<lambda>s. Inr (emit (ContractPaused (msg_sender e)) (s\<lparr>paused := True\<rparr>))))"

definition unpause :: "env \<Rightarrow> contract \<Rightarrow> error + contract" where
  "unpause e =
     onlyOwner e (\<lambda>s. Inr (emit (ContractUnpaused (msg_sender e)) (s\<lparr>paused := False\<rparr>)))"

definition setCooldownSeconds :: "env \<Rightarrow> uint256 \<Rightarrow> contract \<Rightarrow> error + contract" where
  "setCooldownSeconds e newCooldownSeconds =
     onlyOwner e (\<lambda>s.
       if \<not> newCooldownSeconds > 0 then Inl (Error ''Cooldown must be positive'')
       else Inr ((emit (CooldownSecondsUpdated (cooldownSeconds s) newCooldownSeconds) s)
                   \<lparr>cooldownSeconds := newCooldownSeconds\<rparr>))"

definition openBatch :: "env \<Rightarrow> contract \<Rightarrow> error + contract" where
  "openBatch e =
     onlyOwner e (whenNotPaused (\<lambda>s.
       let s1 = (if isOpen (currentBatch s)
                 then emit (BatchClosed (id' (currentBatch s)))
                        (s\<lparr>currentBatch := (currentBatch s)\<lparr>isOpen := False\<rparr>\<rparr>)
                 else s)
       in case checked_add (id' (currentBatch s1)) 1 of
            Inl err \<Rightarrow> Inl err
          | Inr n \<Rightarrow>
              let s2 = s1\<lparr>currentBatch :=
                           \<lparr>id' = n, isOpen = True, totalEncryptedCongestionScore = 0,
                            totalEncryptedEcoScore = 0, submissionCount = 0\<rparr>\<rparr>
              in Inr (emit (BatchOpened (id' (currentBatch s2))) s2)))"

definition closeBatch :: "env \<Rightarrow> contract \<Rightarrow> error + contract" where
  "closeBatch e =
     onlyOwner e (whenNotPaused (\<lambda>s.
       if \<not> isOpen (currentBatch s) then Inl BatchNotOpen
       else Inr (emit (BatchClosed (id' (currentBatch s)))
                   (s\<lparr>currentBatch := (currentBatch s)\<lparr>isOpen := False\<rparr>\<rparr>))))"

definition submitData :: "lib \<Rightarrow> env \<Rightarrow> uint256 \<Rightarrow> uint256 \<Rightarrow> contract \<Rightarrow> error + contract" where
  "submitData L e encryptedCongestionScore encryptedEcoScore =
     onlyProvider e (whenNotPaused (submissionRateLimited e (\<lambda>s.
       if \<not> isOpen (currentBatch s) then Inl BatchNotOpen
       else if \<not> FHE_isInitialized L encryptedCongestionScore
         then Inl (Error ''Congestion score not initialized'')
       else if \<not> FHE_isInitialized L encryptedEcoScore
         then Inl (Error ''Eco score not initialized'')
       else
         let b = currentBatch s;
             b1 = b\<lparr>totalEncryptedCongestionScore :=
                      FHE_add L (totalEncryptedCongestionScore b) encryptedCongestionScore\<rparr>;
             b2 = b1\<lparr>totalEncryptedEcoScore :=
                      FHE_add L (totalEncryptedEcoScore b1) encryptedEcoScore\<rparr>
         in case checked_add (submissionCount b2) 1 of
              Inl err \<Rightarrow> Inl err
            | Inr n \<Rightarrow>
                let s1 = s\<lparr>currentBatch := b2\<lparr>submissionCount := n\<rparr>\<rparr>
                in Inr (emit (DataSubmitted (msg_sender e) (id' (currentBatch s1))) s1))))"

definition hashCiphertexts :: "lib \<Rightarrow> contract \<Rightarrow> bytes32 list \<Rightarrow> bytes32" where
  "hashCiphertexts L s cts = keccak256 L (abi_encode cts (address_this s))"

definition requestBatchDecryption :: "lib \<Rightarrow> env \<Rightarrow> contract \<Rightarrow> error + contract" where
  "requestBatchDecryption L e =
     onlyOwner e (whenNotPaused (decryptionRateLimited e (\<lambda>s.
       if isOpen (currentBatch s) then Inl BatchNotOpen
       else if submissionCount (currentBatch s) = 0 then Inl (Error ''No data to decrypt'')
       else
         let totalCongestionScoreEnc = totalEncryptedCongestionScore (currentBatch s);
             totalEcoScoreEnc = totalEncryptedEcoScore (currentBatch s);
             cts = [FHE_toBytes32 L totalCongestionScoreEnc, FHE_toBytes32 L totalEcoScoreEnc];
             stateHash = hashCiphertexts L s cts;
             requestId = FHE_requestDecryption e cts;
             s1 = s\<lparr>oracleRequests := oracleRequests s @ [cts]\<rparr>;
             s2 = s1\<lparr>decryptionContexts := (decryptionContexts s1)
                        (requestId := \<lparr>batchId = id' (currentBatch s1), stateHash = stateHash,
                                       processed = False\<rparr>)\<rparr>
         in Inr (emit (DecryptionRequested requestId (id' (currentBatch s2))) s2))))"

definition myCallback :: "lib \<Rightarrow> env \<Rightarrow> uint256 \<Rightarrow> bytes \<Rightarrow> bytes \<Rightarrow> contract \<Rightarrow> error + contract" where
  "myCallback L e requestId cleartexts proof s =
     (if requestId = 0 then Inl (Error ''Invalid request ID'')
      else
        let ctx = decryptionContexts s requestId in
        if processed ctx then Inl ReplayAttempt
        else
          let batch = currentBatch s in
          if id' batch \<noteq> batchId ctx then Inl InvalidBatchId
          else
            let totalCongestionScoreEnc = totalEncryptedCongestionScore batch;
                totalEcoScoreEnc = totalEncryptedEcoScore batch;
                cts = [FHE_toBytes32 L totalCongestionScoreEnc, FHE_toBytes32 L totalEcoScoreEnc];
                currentHash = hashCiphertexts L s cts
            in if currentHash \<noteq> stateHash ctx then Inl StateMismatch
               else if FHE_checkSignatures e requestId cleartexts proof
                 then (case abi_decode cleartexts of
                         None \<Rightarrow> Inl RevertNoData
                       | Some (totalCongestionScoreCleartext, totalEcoScoreCleartext) \<Rightarrow>
                           let s1 = s\<lparr>decryptionContexts := (decryptionContexts s)
                                       (requestId := ctx\<lparr>processed := True\<rparr>)\<rparr>
                           in Inr (emit (DecryptionCompleted requestId
                                           (batchId (decryptionContexts s1 requestId))
                                           (ucast totalCongestionScoreCleartext)
                                           (ucast totalEcoScoreCleartext)) s1))
                 else Inl InvalidProof)"

subsection \<open>Calls and transactions\<close>

text \<open>
  The external functions of the contract as one type of calls. A transaction runs one
  call: the storage it leaves is the one the call committed, or the one it started
  from when the call reverted. A run is a sequence of transactions, each in its own
  environment.
\<close>

datatype call =
    TransferOwnership address
  | AddProvider address
  | RemoveProvider address
  | Pause
  | Unpause
  | SetCooldownSeconds uint256
  | OpenBatch
  | CloseBatch
  | SubmitData uint256 uint256
  | RequestBatchDecryption
  | MyCallback uint256 bytes bytes

fun dispatch :: "lib \<Rightarrow> env \<Rightarrow> call \<Rightarrow> contract \<Rightarrow> error + contract" where
  "dispatch L e (TransferOwnership a) = transferOwnership e a"
| "dispatch L e (AddProvider a) = addProvider e a"
| "dispatch L e (RemoveProvider a) = removeProvider e a"
| "dispatch L e Pause = pause e"
| "dispatch L e Unpause = unpause e"
| "dispatch L e (SetCooldownSeconds n) = setCooldownSeconds e n"
| "dispatch L e OpenBatch = openBatch e"
| "dispatch L e CloseBatch = closeBatch e"
| "dispatch L e (SubmitData c k) = submitData L e c k"
| "dispatch L e RequestBatchDecryption = requestBatchDecryption L e"
| "dispatch L e (MyCallback r c p) = myCallback L e r c p"

definition transact :: "lib \<Rightarrow> env \<Rightarrow> call \<Rightarrow> contract \<Rightarrow> contract" where
  "transact L e c s = (case dispatch L e c s of Inl _ \<Rightarrow> s | Inr s' \<Rightarrow> s')"

fun run :: "lib \<Rightarrow> (env \<times> call) list \<Rightarrow> contract \<Rightarrow> contract" where
  "run L [] s = s"
| "run L ((e, c) # cs) s = run L cs (transact L e c s)"

text \<open>One call after another inside the same run: the second starts where the first
  committed, and a revert of the first is the result.\<close>

definition andThen :: "error + contract \<Rightarrow> (contract \<Rightarrow> error + contract) \<Rightarrow> error + contract" where
  "andThen r f = (case r of Inl err \<Rightarrow> Inl err | Inr s \<Rightarrow> f s)"

text \<open>
  The two ciphertexts that \<^verbatim>\<open>requestBatchDecryption\<close> and \<^verbatim>\<open>myCallback\<close>
  both build from the current batch, and their hash.
\<close>

definition aggregateHandles :: "lib \<Rightarrow> contract \<Rightarrow> bytes32 list" where
  "aggregateHandles L s =
     [FHE_toBytes32 L (totalEncryptedCongestionScore (currentBatch s)),
      FHE_toBytes32 L (totalEncryptedEcoScore (currentBatch s))]"

definition aggregateHash :: "lib \<Rightarrow> contract \<Rightarrow> bytes32" where
  "aggregateHash L s = hashCiphertexts L s (aggregateHandles L s)"

text \<open>The request id the oracle answers a call with, when that call is a decryption
  request that commits.\<close>

definition issued :: "lib \<Rightarrow> env \<Rightarrow> call \<Rightarrow> contract \<Rightarrow> uint256 option" where
  "issued L e c s =
     (case c of
        RequestBatchDecryption \<Rightarrow>
          (case requestBatchDecryption L e s of
             Inl _ \<Rightarrow> None
           | Inr _ \<Rightarrow> Some (FHE_requestDecryption e (aggregateHandles L s)))
      | _ \<Rightarrow> None)"

text \<open>Whether a run, started in a storage, ever has the oracle answer a committed
  decryption request with the request id \<open>r\<close>.\<close>

fun issues :: "lib \<Rightarrow> uint256 \<Rightarrow> (env \<times> call) list \<Rightarrow> contract \<Rightarrow> bool" where
  "issues L r [] s = False"
| "issues L r ((e, c) # cs) s = (issued L e c s = Some r \<or> issues L r cs (transact L e c s))"

text \<open>
  An invariant of the storage: the batch id is not 0, no context is for a later batch
  than the current one, and a context for the current batch exists only once that batch
  is closed and then holds the hash of the batch's aggregates.
\<close>

definition frozen :: "lib \<Rightarrow> contract \<Rightarrow> bool" where
  "frozen L s \<longleftrightarrow>
     id' (currentBatch s) \<noteq> 0 \<and>
     (\<forall>r. unat (batchId (decryptionContexts s r)) \<le> unat (id' (currentBatch s))) \<and>
     (\<forall>r. batchId (decryptionContexts s r) = id' (currentBatch s) \<longrightarrow>
          \<not> isOpen (currentBatch s) \<and> stateHash (decryptionContexts s r) = aggregateHash L s)"

text \<open>The errors the source declares with \<^verbatim>\<open>error X();\<close>, as against the
  \<^verbatim>\<open>Error(string)\<close>, \<^verbatim>\<open>Panic\<close> and data-less reverts of the language.\<close>

fun is_custom_error :: "error \<Rightarrow> bool" where
  "is_custom_error (Error _) = False"
| "is_custom_error (Panic _) = False"
| "is_custom_error RevertNoData = False"
| "is_custom_error _ = True"

subsection \<open>A concrete instance\<close>

text \<open>
  A library and environments to run the contract on: handles are added as numbers, a
  handle is initialized when it is not zero, the hash is a polynomial in the words, the
  oracle answers every request with the id given, and a proof is accepted when it is
  not empty.
\<close>

definition example_lib :: lib where
  "example_lib =
     \<lparr>FHE_add = (\<lambda>a b. a + b),
      FHE_isInitialized = (\<lambda>h. h \<noteq> 0),
      FHE_toBytes32 = (\<lambda>h. h),
      keccak256 = foldl (\<lambda>a w. a * 31 + w) 7\<rparr>"

definition example_env :: "address \<Rightarrow> uint256 \<Rightarrow> uint256 \<Rightarrow> env" where
  "example_env sender now rid =
     \<lparr>msg_sender = sender,
      block_timestamp = now,
      FHE_requestDecryption = (\<lambda>_. rid),
      FHE_checkSignatures = (\<lambda>_ _ prf. prf \<noteq> [])\<rparr>"

text \<open>The instance at address 9 deployed by account 1.\<close>

definition fresh :: contract where
  "fresh = constructor (example_env 1 0 0) 9"

text \<open>The cleartexts \<^verbatim>\<open>abi.encode(uint32(10), uint32(6))\<close>.\<close>

definition cleartexts_10_6 :: bytes where
  "cleartexts_10_6 = replicate 31 0 @ [10] @ replicate 31 0 @ [6]"

text \<open>
  The scenario of the specification: account 7 is authorized, batch 2 is opened, 7 submits
  (5, 3) twice, the batch is closed, and the owner requests the decryption, which the
  oracle answers with request id 77.
\<close>

definition scenario :: "(env \<times> call) list" where
  "scenario =
     [(example_env 1 100 0, AddProvider 7),
      (example_env 1 200 0, OpenBatch),
      (example_env 7 300 0, SubmitData 5 3),
      (example_env 7 400 0, SubmitData 5 3),
      (example_env 1 500 0, CloseBatch),
      (example_env 1 600 77, RequestBatchDecryption)]"

definition requested :: contract where
  "requested = run example_lib scenario fresh"

text \<open>Steps of the scenario, and states beside it.\<close>

definition authorized :: contract where
  "authorized = run example_lib (take 1 scenario) fresh"

definition opened :: contract where
  "opened = run example_lib (take 2 scenario) fresh"

definition submitted :: contract where
  "submitted = run example_lib (take 4 scenario) fresh"

definition closed :: contract where
  "closed = run example_lib (take 5 scenario) fresh"

definition completed :: contract where
  "completed = transact example_lib (example_env 5 700 0) (MyCallback 77 cleartexts_10_6 [1]) requested"

text \<open>After the request the owner opens the next batch.\<close>

definition reopened :: contract where
  "reopened = transact example_lib (example_env 1 700 0) OpenBatch requested"

text \<open>The same scenario on the instance at address 8.\<close>

definition elsewhere :: contract where
  "elsewhere = run example_lib scenario (constructor (example_env 1 0 0) 8)"


text \<open>The requested state with the congestion total overwritten by hand; no call writes
  a total of a closed batch.\<close>

definition tampered :: contract where
  "tampered = requested\<lparr>currentBatch := (currentBatch requested)\<lparr>totalEncryptedCongestionScore := 15\<rparr>\<rparr>"


definition halted :: contract where
  "halted = transact example_lib (example_env 1 100 0) Pause fresh"

definition opened_twice :: contract where
  "opened_twice = run example_lib [(example_env 1 100 0, OpenBatch), (example_env 1 200 0, OpenBatch)] fresh"

section \<open>Properties\<close>

lemmas functions_defs = transferOwnership_def addProvider_def removeProvider_def pause_def
  unpause_def setCooldownSeconds_def openBatch_def closeBatch_def submitData_def
  requestBatchDecryption_def myCallback_def

lemmas modifiers_defs = onlyOwner_def onlyProvider_def whenNotPaused_def
  submissionRateLimited_def decryptionRateLimited_def

lemmas primitives_defs = checked_add_def emit_def hashCiphertexts_def abi_encode_def Let_def
  andThen_def transact_def aggregateHandles_def aggregateHash_def

lemmas example_defs = example_lib_def example_env_def fresh_def constructor_def scenario_def
  requested_def authorized_def opened_def submitted_def closed_def completed_def

lemmas evaluation = example_defs functions_defs modifiers_defs primitives_defs

subsection \<open>Arithmetic, frames and invariants\<close>

lemma checked_add_1: "unat a + 1 < 2 ^ 256 \<Longrightarrow> checked_add a 1 = Inr (a + 1)"
  by (simp add: checked_add_def)

lemma unat_plus_1: "unat (a :: uint256) + 1 < 2 ^ 256 \<Longrightarrow> unat (a + 1) = unat a + 1"
  by (simp add: unat_word_ariths)

lemma checked_add_Inr: "checked_add a b = Inr n \<Longrightarrow> n = a + b \<and> unat n = unat a + unat b"
  by (auto simp: checked_add_def unat_word_ariths split: if_splits)

lemma openBatch_id: "openBatch e s = Inr s' \<Longrightarrow> id' (currentBatch s') \<noteq> 0"
  by (auto simp: openBatch_def onlyOwner_def whenNotPaused_def emit_def Let_def
      split: if_splits sum.splits dest!: checked_add_Inr)

lemma id_other:
  "dispatch L e c s = Inr s' \<Longrightarrow> c \<noteq> OpenBatch \<Longrightarrow> id' (currentBatch s') = id' (currentBatch s)"
  by (cases c)
    (auto simp: functions_defs modifiers_defs emit_def Let_def
      split: if_splits sum.splits option.splits prod.splits)

lemma contexts_other:
  "dispatch L e c s = Inr s' \<Longrightarrow> c \<noteq> RequestBatchDecryption \<Longrightarrow> (\<forall>x y. c \<noteq> MyCallback r x y)
   \<Longrightarrow> decryptionContexts s' r = decryptionContexts s r"
  by (cases c)
    (auto simp: functions_defs modifiers_defs emit_def Let_def
      split: if_splits sum.splits option.splits prod.splits)

lemma contexts_request:
  "requestBatchDecryption L e s = Inr s' \<Longrightarrow> FHE_requestDecryption e (aggregateHandles L s) \<noteq> r
   \<Longrightarrow> decryptionContexts s' r = decryptionContexts s r"
  by (auto simp: requestBatchDecryption_def onlyOwner_def whenNotPaused_def
        decryptionRateLimited_def emit_def aggregateHandles_def Let_def
        split: if_splits sum.splits)

lemma contexts_callback:
  "myCallback L e r c p s = Inr s' \<Longrightarrow>
     r \<noteq> 0 \<and> \<not> processed (decryptionContexts s r) \<and>
     id' (currentBatch s) = batchId (decryptionContexts s r) \<and>
     decryptionContexts s' = (decryptionContexts s)(r := (decryptionContexts s r)\<lparr>processed := True\<rparr>)"
  by (auto simp: myCallback_def emit_def Let_def split: if_splits option.splits prod.splits)

lemma callback_replay:
  "r \<noteq> 0 \<Longrightarrow> processed (decryptionContexts s r) \<Longrightarrow> myCallback L e r c p s = Inl ReplayAttempt"
  by (simp add: myCallback_def)

lemma contexts_dispatch:
  assumes "dispatch L e c s = Inr s'" and "issued L e c s \<noteq> Some r"
  shows "decryptionContexts s' r = decryptionContexts s r \<or>
         (\<exists>x y. c = MyCallback r x y \<and> \<not> processed (decryptionContexts s r) \<and> r \<noteq> 0 \<and>
            id' (currentBatch s) = batchId (decryptionContexts s r) \<and>
            decryptionContexts s' r = (decryptionContexts s r)\<lparr>processed := True\<rparr>)"
proof (cases c)
  case RequestBatchDecryption
  with assms show ?thesis
    by (auto simp: issued_def dest: contexts_request)
next
  case (MyCallback r' x y)
  with assms(1) show ?thesis
    by (cases "r' = r") (auto dest!: contexts_callback)
qed (use assms(1) contexts_other [of L e c s s' r] in simp_all)

lemma contexts_step:
  assumes "issued L e c s \<noteq> Some r"
  shows "decryptionContexts (transact L e c s) r = decryptionContexts s r \<or>
         (\<exists>x y. c = MyCallback r x y \<and> \<not> processed (decryptionContexts s r) \<and> r \<noteq> 0 \<and>
            id' (currentBatch s) = batchId (decryptionContexts s r) \<and>
            decryptionContexts (transact L e c s) r = (decryptionContexts s r)\<lparr>processed := True\<rparr>)"
proof (cases "dispatch L e c s")
  case (Inl err)
  then show ?thesis by (simp add: transact_def)
next
  case (Inr s')
  then have t: "transact L e c s = s'" by (simp add: transact_def)
  from contexts_dispatch [OF Inr assms] show ?thesis unfolding t .
qed

lemma processed_step:
  "processed (decryptionContexts s r) \<Longrightarrow> issued L e c s \<noteq> Some r \<Longrightarrow>
     processed (decryptionContexts (transact L e c s) r)"
  using contexts_step [of L e c s r] by auto

lemma processed_run:
  "processed (decryptionContexts s r) \<Longrightarrow> \<not> issues L r txs s \<Longrightarrow>
     processed (decryptionContexts (run L txs s) r)"
proof (induction txs arbitrary: s)
  case Nil
  then show ?case by simp
next
  case (Cons x txs)
  obtain e c where x: "x = (e, c)" by (cases x)
  from Cons.prems have "processed (decryptionContexts (transact L e c s) r)"
    unfolding x by (intro processed_step) simp_all
  with Cons.prems show ?case
    unfolding x by (simp add: Cons.IH)
qed

lemma inv_step:
  assumes "id' (currentBatch s) \<noteq> 0"
    and "decryptionContexts s r = \<lparr>batchId = 0, stateHash = 0, processed = False\<rparr>"
    and "issued L e c s \<noteq> Some r"
  shows "id' (currentBatch (transact L e c s)) \<noteq> 0 \<and>
         decryptionContexts (transact L e c s) r = \<lparr>batchId = 0, stateHash = 0, processed = False\<rparr>"
proof
  show "id' (currentBatch (transact L e c s)) \<noteq> 0"
  proof (cases "dispatch L e c s")
    case (Inl err)
    with assms(1) show ?thesis by (simp add: transact_def)
  next
    case (Inr s')
    then have t: "transact L e c s = s'" by (simp add: transact_def)
    show ?thesis
    proof (cases "c = OpenBatch")
      case True
      with Inr show ?thesis unfolding t by (simp add: openBatch_id)
    next
      case False
      with Inr assms(1) show ?thesis unfolding t by (simp add: id_other)
    qed
  qed
  from contexts_step [OF assms(3)] assms(1,2)
  show "decryptionContexts (transact L e c s) r = \<lparr>batchId = 0, stateHash = 0, processed = False\<rparr>"
    by auto
qed

lemma inv_run:
  "id' (currentBatch s) \<noteq> 0 \<Longrightarrow>
   decryptionContexts s r = \<lparr>batchId = 0, stateHash = 0, processed = False\<rparr> \<Longrightarrow>
   \<not> issues L r txs s \<Longrightarrow>
   id' (currentBatch (run L txs s)) \<noteq> 0 \<and>
   decryptionContexts (run L txs s) r = \<lparr>batchId = 0, stateHash = 0, processed = False\<rparr>"
proof (induction txs arbitrary: s)
  case Nil
  then show ?case by simp
next
  case (Cons x txs)
  obtain e c where x: "x = (e, c)" by (cases x)
  from Cons.prems have i: "issued L e c s \<noteq> Some r" "\<not> issues L r txs (transact L e c s)"
    unfolding x by simp_all
  from inv_step [OF Cons.prems(1,2) i(1)] Cons.IH [OF _ _ i(2)]
  show ?case unfolding x by simp
qed

lemma be_nat_zeros: "foldl (\<lambda>a b. a * 256 + unat b) 0 (replicate n (0 :: 8 word)) = 0"
  by (induction n) simp_all

lemma be_nat_padded: "be_nat (replicate n 0 @ [b]) = unat b"
  by (simp add: be_nat_def be_nat_zeros)

lemma abi_decode_cleartexts_10_6: "abi_decode cleartexts_10_6 = Some (10, 6)"
proof -
  have a: "take 32 cleartexts_10_6 = replicate 31 0 @ [10]"
    by (simp add: cleartexts_10_6_def)
  have b: "take 32 (drop 32 cleartexts_10_6) = replicate 31 0 @ [6]"
    by (simp add: cleartexts_10_6_def)
  have c: "length cleartexts_10_6 = 64"
    by (simp add: cleartexts_10_6_def)
  show ?thesis
    unfolding abi_decode_def a b c be_nat_padded by simp
qed












text \<open>The encoding that is hashed determines the handles and the address; the
  invariant holds on every run from the constructor.\<close>

lemma ucast_address_inj: "(ucast (a :: address) :: uint256) = ucast b \<Longrightarrow> a = b"
proof -
  assume "(ucast a :: uint256) = ucast b"
  then have "uint (ucast a :: uint256) = uint (ucast b :: uint256)" by simp
  then have "uint a = uint b" by (simp add: uint_up_ucast is_up)
  then show ?thesis by (simp add: word_uint_eq_iff)
qed

lemma abi_encode_inj: "abi_encode cts a = abi_encode cts' a' \<Longrightarrow> cts = cts' \<and> a = a'"
  by (auto simp: abi_encode_def dest: ucast_address_inj)

lemma frozen_constructor: "frozen L (constructor d a)"
  by (simp add: frozen_def constructor_def)

lemma openBatch_Inr:
  "openBatch e s = Inr s' \<Longrightarrow>
     unat (id' (currentBatch s')) = unat (id' (currentBatch s)) + 1 \<and>
     decryptionContexts s' = decryptionContexts s"
  by (auto simp: openBatch_def onlyOwner_def whenNotPaused_def emit_def Let_def
      split: if_splits sum.splits dest!: checked_add_Inr)

lemma frozen_openBatch:
  assumes "frozen L s" and "openBatch e s = Inr s'"
  shows "frozen L s'"
proof -
  from openBatch_Inr [OF assms(2)]
  have n: "unat (id' (currentBatch s')) = unat (id' (currentBatch s)) + 1"
    and c: "decryptionContexts s' = decryptionContexts s" by simp_all
  from assms(1) have le: "unat (batchId (decryptionContexts s r)) \<le> unat (id' (currentBatch s))" for r
    by (simp add: frozen_def)
  have a: "id' (currentBatch s') \<noteq> 0"
    using n by (metis add_is_0 unat_0 zero_neq_one)
  have b: "unat (batchId (decryptionContexts s' r)) \<le> unat (id' (currentBatch s'))" for r
    using le [of r] n c by simp
  have d: "batchId (decryptionContexts s' r) \<noteq> id' (currentBatch s')" for r
    using le [of r] n c by auto
  from a b d show ?thesis by (simp add: frozen_def)
qed

lemma frozen_while_open:
  assumes "frozen L s" and "isOpen (currentBatch s)"
    and "id' (currentBatch s') = id' (currentBatch s)"
    and "decryptionContexts s' = decryptionContexts s"
  shows "frozen L s'"
  using assms by (auto simp: frozen_def)

lemma closeBatch_Inr:
  "closeBatch e s = Inr s' \<Longrightarrow>
     isOpen (currentBatch s) \<and> id' (currentBatch s') = id' (currentBatch s) \<and>
     decryptionContexts s' = decryptionContexts s"
  by (auto simp: closeBatch_def onlyOwner_def whenNotPaused_def emit_def split: if_splits)

lemma submitData_frame:
  "submitData L e x y s = Inr s' \<Longrightarrow>
     isOpen (currentBatch s) \<and> id' (currentBatch s') = id' (currentBatch s) \<and>
     decryptionContexts s' = decryptionContexts s"
  by (auto simp: submitData_def onlyProvider_def whenNotPaused_def submissionRateLimited_def
      emit_def Let_def split: if_splits sum.splits)

lemma requestBatchDecryption_Inr:
  "requestBatchDecryption L e s = Inr s' \<Longrightarrow>
     \<not> isOpen (currentBatch s) \<and> currentBatch s' = currentBatch s \<and>
     address_this s' = address_this s \<and>
     decryptionContexts s' = (decryptionContexts s)
       (FHE_requestDecryption e (aggregateHandles L s) :=
          \<lparr>batchId = id' (currentBatch s), stateHash = aggregateHash L s, processed = False\<rparr>)"
  by (auto simp: requestBatchDecryption_def onlyOwner_def whenNotPaused_def
      decryptionRateLimited_def emit_def hashCiphertexts_def aggregateHandles_def
      aggregateHash_def Let_def split: if_splits sum.splits)

lemma myCallback_frame:
  "myCallback L e r c p s = Inr s' \<Longrightarrow>
     currentBatch s' = currentBatch s \<and> address_this s' = address_this s"
  by (auto simp: myCallback_def emit_def Let_def split: if_splits option.splits prod.splits)

lemma frame_other:
  "dispatch L e c s = Inr s' \<Longrightarrow>
   c \<noteq> OpenBatch \<Longrightarrow> c \<noteq> CloseBatch \<Longrightarrow> c \<noteq> RequestBatchDecryption \<Longrightarrow>
   (\<forall>x y. c \<noteq> SubmitData x y) \<Longrightarrow> (\<forall>r x y. c \<noteq> MyCallback r x y) \<Longrightarrow>
     currentBatch s' = currentBatch s \<and> decryptionContexts s' = decryptionContexts s \<and>
     address_this s' = address_this s"
  by (cases c)
    (auto simp: transferOwnership_def addProvider_def removeProvider_def pause_def unpause_def
      setCooldownSeconds_def onlyOwner_def whenNotPaused_def emit_def split: if_splits)

lemma aggregateHash_cong:
  "currentBatch s' = currentBatch s \<Longrightarrow> address_this s' = address_this s \<Longrightarrow>
     aggregateHash L s' = aggregateHash L s"
  by (simp add: aggregateHash_def aggregateHandles_def hashCiphertexts_def)

lemma frozen_same_hashes:
  assumes "frozen L s" and "currentBatch s' = currentBatch s" and "address_this s' = address_this s"
    and "\<And>r. batchId (decryptionContexts s' r) = batchId (decryptionContexts s r)"
    and "\<And>r. stateHash (decryptionContexts s' r) = stateHash (decryptionContexts s r)"
  shows "frozen L s'"
  using assms(1) unfolding frozen_def aggregateHash_cong [OF assms(2,3)] assms(2,4,5) .

lemma frozen_request:
  assumes "frozen L s" and "requestBatchDecryption L e s = Inr s'"
  shows "frozen L s'"
proof -
  let ?r = "FHE_requestDecryption e (aggregateHandles L s)"
  from requestBatchDecryption_Inr [OF assms(2)]
  have o: "\<not> isOpen (currentBatch s)" and b: "currentBatch s' = currentBatch s"
    and a: "address_this s' = address_this s"
    and c: "decryptionContexts s' = (decryptionContexts s)
       (?r := \<lparr>batchId = id' (currentBatch s), stateHash = aggregateHash L s, processed = False\<rparr>)"
    by simp_all
  note h = aggregateHash_cong [OF b a, of L]
  from assms(1) have i: "id' (currentBatch s) \<noteq> 0"
    and le: "\<And>r. unat (batchId (decryptionContexts s r)) \<le> unat (id' (currentBatch s))"
    and eq: "\<And>r. batchId (decryptionContexts s r) = id' (currentBatch s) \<Longrightarrow>
          stateHash (decryptionContexts s r) = aggregateHash L s"
    by (simp_all add: frozen_def)
  have 1: "id' (currentBatch s') \<noteq> 0" using i b by simp
  have 2: "unat (batchId (decryptionContexts s' r)) \<le> unat (id' (currentBatch s'))" for r
    using le [of r] by (cases "r = ?r") (simp_all add: b c)
  have 3: "\<not> isOpen (currentBatch s') \<and> stateHash (decryptionContexts s' r) = aggregateHash L s'"
    if "batchId (decryptionContexts s' r) = id' (currentBatch s')" for r
  proof (cases "r = ?r")
    case True
    with o show ?thesis by (simp add: b c h)
  next
    case False
    with that have "batchId (decryptionContexts s r) = id' (currentBatch s)" by (simp add: b c)
    from eq [OF this] o False show ?thesis by (simp add: b c h)
  qed
  from 1 2 3 show ?thesis unfolding frozen_def by blast
qed

lemma frozen_callback:
  assumes "frozen L s" and "myCallback L e r c p s = Inr s'"
  shows "frozen L s'"
proof -
  from contexts_callback [OF assms(2)]
  have c: "decryptionContexts s' = (decryptionContexts s)(r := (decryptionContexts s r)\<lparr>processed := True\<rparr>)"
    by simp
  from myCallback_frame [OF assms(2)]
  have b: "currentBatch s' = currentBatch s" and a: "address_this s' = address_this s"
    by simp_all
  have bq: "batchId (decryptionContexts s' q) = batchId (decryptionContexts s q)" for q
    by (simp add: c)
  have sq: "stateHash (decryptionContexts s' q) = stateHash (decryptionContexts s q)" for q
    by (simp add: c)
  show ?thesis by (rule frozen_same_hashes [OF assms(1) b a bq sq])
qed

lemma frozen_other:
  assumes "frozen L s" and "dispatch L e c s = Inr s'"
    and "c \<noteq> OpenBatch" "c \<noteq> CloseBatch" "c \<noteq> RequestBatchDecryption"
    and "\<forall>x y. c \<noteq> SubmitData x y" "\<forall>r x y. c \<noteq> MyCallback r x y"
  shows "frozen L s'"
proof -
  from frame_other [OF assms(2-7)]
  have b: "currentBatch s' = currentBatch s" and a: "address_this s' = address_this s"
    and c: "decryptionContexts s' = decryptionContexts s"
    by simp_all
  show ?thesis
    by (rule frozen_same_hashes [OF assms(1) b a]) (simp_all add: c)
qed

lemma frozen_dispatch:
  assumes "frozen L s" and "dispatch L e c s = Inr s'"
  shows "frozen L s'"
proof (cases c)
  case OpenBatch
  with assms(2) have "openBatch e s = Inr s'" by simp
  then show ?thesis by (rule frozen_openBatch [OF assms(1)])
next
  case CloseBatch
  with assms(2) have "closeBatch e s = Inr s'" by simp
  from closeBatch_Inr [OF this] show ?thesis
    by (intro frozen_while_open [OF assms(1)]) simp_all
next
  case (SubmitData x y)
  with assms(2) have "submitData L e x y s = Inr s'" by simp
  from submitData_frame [OF this] show ?thesis
    by (intro frozen_while_open [OF assms(1)]) simp_all
next
  case RequestBatchDecryption
  with assms(2) have "requestBatchDecryption L e s = Inr s'" by simp
  then show ?thesis by (rule frozen_request [OF assms(1)])
next
  case (MyCallback r x y)
  with assms(2) have "myCallback L e r x y s = Inr s'" by simp
  then show ?thesis by (rule frozen_callback [OF assms(1)])
next
  case (TransferOwnership x)
  then show ?thesis by (intro frozen_other [OF assms]) simp_all
next
  case (AddProvider x)
  then show ?thesis by (intro frozen_other [OF assms]) simp_all
next
  case (RemoveProvider x)
  then show ?thesis by (intro frozen_other [OF assms]) simp_all
next
  case Pause
  then show ?thesis by (intro frozen_other [OF assms]) simp_all
next
  case Unpause
  then show ?thesis by (intro frozen_other [OF assms]) simp_all
next
  case (SetCooldownSeconds x)
  then show ?thesis by (intro frozen_other [OF assms]) simp_all
qed

lemma frozen_run: "frozen L s \<Longrightarrow> frozen L (run L txs s)"
proof (induction txs arbitrary: s)
  case Nil
  then show ?case by simp
next
  case (Cons x txs)
  obtain e c where x: "x = (e, c)" by (cases x)
  have "frozen L (transact L e c s)"
  proof (cases "dispatch L e c s")
    case (Inl err)
    with Cons.prems show ?thesis by (simp add: transact_def)
  next
    case (Inr s')
    from frozen_dispatch [OF Cons.prems Inr] Inr show ?thesis by (simp add: transact_def)
  qed
  then show ?case unfolding x by (simp add: Cons.IH)
qed

lemma myCallback_StateMismatch:
  "myCallback L e r c p s = Inl StateMismatch \<Longrightarrow>
     id' (currentBatch s) = batchId (decryptionContexts s r) \<and>
     aggregateHash L s \<noteq> stateHash (decryptionContexts s r)"
  by (simp add: myCallback_def aggregateHash_def aggregateHandles_def Let_def
      split: if_splits option.splits prod.splits)

lemma stateMismatch_unreachable:
  "myCallback L e r c p (run L txs (constructor d a)) \<noteq> Inl StateMismatch"
proof
  assume m: "myCallback L e r c p (run L txs (constructor d a)) = Inl StateMismatch"
  have "frozen L (run L txs (constructor d a))"
    by (intro frozen_run frozen_constructor)
  with myCallback_StateMismatch [OF m] show False
    by (simp add: frozen_def)
qed

subsection \<open>Authorized submitters\<close>

text \<open>
  Claim C10. \<^verbatim>\<open>addProvider\<close> and \<^verbatim>\<open>removeProvider\<close> are idempotent: for a
  principal already in the desired state the call leaves the storage as it is (the set
  of providers and the event log with it), an event is emitted only when the flag really
  flips, and then it is \<^verbatim>\<open>ProviderAdded\<close>, respectively \<^verbatim>\<open>ProviderRemoved\<close>,
  for that principal; calling a second time changes nothing more.
\<close>

theorem addProvider_removeProvider_idempotent:
  "(isProvider s p \<and> addProvider e p s = Inr s' \<longrightarrow> s' = s) \<and>
   (\<not> isProvider s p \<and> removeProvider e p s = Inr s' \<longrightarrow> s' = s) \<and>
   (addProvider e p s = Inr s' \<and> events s' \<noteq> events s \<longrightarrow>
        \<not> isProvider s p \<and>
        s' = s\<lparr>isProvider := (isProvider s)(p := True),
               events := events s @ [ProviderAdded p]\<rparr>) \<and>
   (removeProvider e p s = Inr s' \<and> events s' \<noteq> events s \<longrightarrow>
        isProvider s p \<and>
        s' = s\<lparr>isProvider := (isProvider s)(p := False),
               events := events s @ [ProviderRemoved p]\<rparr>) \<and>
   (msg_sender e = owner s \<longrightarrow>
        (\<exists>s1. addProvider e p s = Inr s1 \<and> addProvider e p s1 = Inr s1)) \<and>
   (msg_sender e = owner s \<longrightarrow>
        (\<exists>s1. removeProvider e p s = Inr s1 \<and> removeProvider e p s1 = Inr s1))"
  by (auto simp: addProvider_def removeProvider_def onlyOwner_def emit_def split: if_splits)

theorem addProvider_removeProvider_idempotent_witness:
  "addProvider (example_env 1 100 0) 7 fresh = Inr authorized \<and>
   events authorized \<noteq> events fresh \<and> \<not> isProvider fresh 7 \<and> isProvider authorized 7 \<and>
   addProvider (example_env 1 200 0) 7 authorized = Inr authorized \<and>
   removeProvider (example_env 1 200 0) 7 fresh = Inr fresh \<and>
   (\<exists>s'. removeProvider (example_env 1 200 0) 7 authorized = Inr s' \<and>
      events s' = [ProviderAdded 7, ProviderRemoved 7] \<and> \<not> isProvider s' 7)"
proof -
  have r: "\<exists>s'. removeProvider (example_env 1 200 0) 7 authorized = Inr s' \<and>
      events s' = [ProviderAdded 7, ProviderRemoved 7]"
    by (simp add: evaluation)
  then obtain s' where r': "removeProvider (example_env 1 200 0) 7 authorized = Inr s'"
    "events s' = [ProviderAdded 7, ProviderRemoved 7]"
    by blast
  have ev: "events authorized = [ProviderAdded 7]"
    by (simp add: evaluation)
  from addProvider_removeProvider_idempotent [of authorized 7 "example_env 1 200 0" s'] r' ev
  have "s' = authorized\<lparr>isProvider := (isProvider authorized)(7 := False),
      events := events authorized @ [ProviderRemoved 7]\<rparr>"
    by simp
  then have "\<not> isProvider s' 7"
    by simp
  with r' have k: "\<exists>s'. removeProvider (example_env 1 200 0) 7 authorized = Inr s' \<and>
      events s' = [ProviderAdded 7, ProviderRemoved 7] \<and> \<not> isProvider s' 7"
    by blast
  have a: "addProvider (example_env 1 100 0) 7 fresh = Inr authorized"
    by (simp add: evaluation)
  have b: "events authorized \<noteq> events fresh"
    by (simp add: evaluation)
  have c: "isProvider authorized 7"
    by (simp add: evaluation)
  have o: "msg_sender (example_env 1 200 0) = owner authorized"
    "msg_sender (example_env 1 200 0) = owner fresh"
    by (simp_all add: evaluation)
  have d: "\<not> isProvider fresh 7"
    using addProvider_removeProvider_idempotent [of fresh 7 "example_env 1 100 0" authorized] a b
    by simp
  have g: "addProvider (example_env 1 200 0) 7 authorized = Inr authorized"
    using addProvider_removeProvider_idempotent [of authorized 7 "example_env 1 200 0"] o c
    by metis
  have h: "removeProvider (example_env 1 200 0) 7 fresh = Inr fresh"
    using addProvider_removeProvider_idempotent [of fresh 7 "example_env 1 200 0"] o d
    by metis
  from a b c d g h k show ?thesis by simp
qed

subsection \<open>Pausing\<close>

text \<open>
  Against claim C9 as it is written. The owner pauses an instance that is paused
  already: the call reverts with \<^verbatim>\<open>Paused\<close>, the error of the modifier
  \<^verbatim>\<open>whenNotPaused\<close> that every guarded function reverts with (here
  \<^verbatim>\<open>closeBatch\<close>); the contract has no error of its own for a second pause.
\<close>

theorem pause_twice_counterexample:
  "paused halted \<and> msg_sender (example_env 1 200 0) = owner halted \<and>
   pause (example_env 1 200 0) halted = Inl Paused \<and>
   closeBatch (example_env 1 200 0) halted = Inl Paused"
  by (simp add: evaluation halted_def)

text \<open>
  Claim C9, amended. Called by the owner, \<^verbatim>\<open>pause\<close> reverts with
  \<^verbatim>\<open>Paused\<close> when the flag is set already, and otherwise sets it and emits
  \<^verbatim>\<open>ContractPaused\<close>; \<^verbatim>\<open>unpause\<close> has no guard on the flag: called by the
  owner it always commits, clears the flag and emits \<^verbatim>\<open>ContractUnpaused\<close>, also
  when the instance is not paused. Any other caller gets \<^verbatim>\<open>NotOwner\<close> from both.
\<close>

theorem pause_unpause_guards:
  "(msg_sender e = owner s \<and> paused s \<longrightarrow> pause e s = Inl Paused) \<and>
   (msg_sender e = owner s \<and> \<not> paused s \<longrightarrow>
      pause e s = Inr (s\<lparr>paused := True,
                         events := events s @ [ContractPaused (msg_sender e)]\<rparr>)) \<and>
   (msg_sender e = owner s \<longrightarrow>
      unpause e s = Inr (s\<lparr>paused := False,
                           events := events s @ [ContractUnpaused (msg_sender e)]\<rparr>)) \<and>
   (msg_sender e \<noteq> owner s \<longrightarrow> pause e s = Inl NotOwner \<and> unpause e s = Inl NotOwner)"
  by (simp add: pause_def unpause_def onlyOwner_def whenNotPaused_def emit_def)

theorem pause_unpause_guards_witness:
  "msg_sender (example_env 1 200 0) = owner halted \<and> paused halted \<and>
   pause (example_env 1 200 0) halted = Inl Paused \<and>
   \<not> paused fresh \<and> pause (example_env 1 100 0) fresh = Inr halted \<and>
   (\<exists>s'. unpause (example_env 1 200 0) fresh = Inr s' \<and> \<not> paused s') \<and>
   (\<exists>s'. unpause (example_env 1 200 0) halted = Inr s' \<and> \<not> paused s') \<and>
   msg_sender (example_env 2 200 0) \<noteq> owner halted \<and>
   unpause (example_env 2 200 0) halted = Inl NotOwner"
proof -
  have o: "msg_sender (example_env 1 200 0) = owner halted"
    "msg_sender (example_env 1 100 0) = owner fresh"
    "msg_sender (example_env 1 200 0) = owner fresh"
    "msg_sender (example_env 2 200 0) \<noteq> owner halted"
    by (simp_all add: evaluation halted_def)
  have p: "paused halted" "\<not> paused fresh"
    by (simp_all add: evaluation halted_def)
  have h: "halted = fresh\<lparr>paused := True,
             events := events fresh @ [ContractPaused (msg_sender (example_env 1 100 0))]\<rparr>"
    by (simp add: evaluation halted_def)
  have a: "pause (example_env 1 200 0) halted = Inl Paused"
    using pause_unpause_guards [of "example_env 1 200 0" halted] o p by simp
  have b: "pause (example_env 1 100 0) fresh = Inr halted"
    using pause_unpause_guards [of "example_env 1 100 0" fresh] o p h by simp
  have c: "\<exists>s'. unpause (example_env 1 200 0) fresh = Inr s' \<and> \<not> paused s'"
    using pause_unpause_guards [of "example_env 1 200 0" fresh] o by simp
  have d: "\<exists>s'. unpause (example_env 1 200 0) halted = Inr s' \<and> \<not> paused s'"
    using pause_unpause_guards [of "example_env 1 200 0" halted] o by simp
  have e: "unpause (example_env 2 200 0) halted = Inl NotOwner"
    using pause_unpause_guards [of "example_env 2 200 0" halted] o by simp
  from o p a b c d e show ?thesis by simp
qed

subsection \<open>Opening batches\<close>

text \<open>
  Against claim C5 as it is written. On the instance as deployed (batch 1, closed) the
  owner opens twice in a row: the first call emits no \<^verbatim>\<open>BatchClosed\<close>, since
  there is no open batch to close, so the two calls emit one \<^verbatim>\<open>BatchClosed\<close> and
  two \<^verbatim>\<open>BatchOpened\<close>, not two pairs.
\<close>

theorem openBatch_twice_counterexample:
  "andThen (openBatch (example_env 1 100 0) fresh) (openBatch (example_env 1 200 0)) = Inr opened_twice \<and>
   events fresh = [] \<and>
   events opened_twice = [BatchOpened 2, BatchClosed 2, BatchOpened 3]"
  by (simp add: evaluation opened_twice_def)

text \<open>
  Claim C5, amended. When the owner calls \<^verbatim>\<open>openBatch\<close> twice in a row on an
  instance that is not paused and whose batch id leaves room for two increments, both
  calls commit, the batch id increments by exactly 1 on each, and each leaves an open
  batch with zero totals and \<^verbatim>\<open>submissionCount\<close> 0. The first call emits
  \<^verbatim>\<open>BatchClosed(currentId)\<close> before \<^verbatim>\<open>BatchOpened(currentId + 1)\<close> exactly
  when the current batch is open, and only \<^verbatim>\<open>BatchOpened(currentId + 1)\<close> when it
  is closed; the second emits \<^verbatim>\<open>BatchClosed(currentId + 1)\<close> then
  \<^verbatim>\<open>BatchOpened(currentId + 2)\<close>.
\<close>

theorem openBatch_twice:
  assumes "msg_sender e1 = owner s" and "msg_sender e2 = owner s" and "\<not> paused s"
    and "unat (id' (currentBatch s)) + 2 < 2 ^ 256"
  shows "\<exists>s1 s2. openBatch e1 s = Inr s1 \<and> openBatch e2 s1 = Inr s2 \<and>
     currentBatch s1 = \<lparr>id' = id' (currentBatch s) + 1, isOpen = True,
        totalEncryptedCongestionScore = 0, totalEncryptedEcoScore = 0, submissionCount = 0\<rparr> \<and>
     currentBatch s2 = \<lparr>id' = id' (currentBatch s1) + 1, isOpen = True,
        totalEncryptedCongestionScore = 0, totalEncryptedEcoScore = 0, submissionCount = 0\<rparr> \<and>
     events s1 = events s
        @ (if isOpen (currentBatch s) then [BatchClosed (id' (currentBatch s))] else [])
        @ [BatchOpened (id' (currentBatch s) + 1)] \<and>
     events s2 = events s1
        @ [BatchClosed (id' (currentBatch s) + 1), BatchOpened (id' (currentBatch s) + 2)]"
proof -
  from assms(4) have n1: "unat (id' (currentBatch s)) + 1 < 2 ^ 256" by simp
  from assms(4) have n2: "unat (id' (currentBatch s) + 1) + 1 < 2 ^ 256"
    by (simp add: unat_plus_1)
  show ?thesis
    using assms(1-3) checked_add_1 [OF n1] checked_add_1 [OF n2]
    by (simp add: openBatch_def onlyOwner_def whenNotPaused_def emit_def Let_def add.assoc)
qed

theorem openBatch_twice_witness:
  "msg_sender (example_env 1 100 0) = owner fresh \<and> msg_sender (example_env 1 200 0) = owner fresh \<and>
   \<not> paused fresh \<and> unat (id' (currentBatch fresh)) + 2 < 2 ^ 256 \<and>
   (\<exists>s1 s2. openBatch (example_env 1 100 0) fresh = Inr s1 \<and> openBatch (example_env 1 200 0) s1 = Inr s2 \<and>
      id' (currentBatch s1) = 2 \<and> id' (currentBatch s2) = 3 \<and>
      events s2 = [BatchOpened 2, BatchClosed 2, BatchOpened 3])"
proof -
  have h: "msg_sender (example_env 1 100 0) = owner fresh" "msg_sender (example_env 1 200 0) = owner fresh"
    "\<not> paused fresh" "unat (id' (currentBatch fresh)) + 2 < 2 ^ 256"
    by (simp_all add: evaluation)
  have v: "id' (currentBatch fresh) = 1" "isOpen (currentBatch fresh) = False" "events fresh = []"
    by (simp_all add: evaluation)
  from openBatch_twice [OF h] obtain s1 s2 where
    "openBatch (example_env 1 100 0) fresh = Inr s1" "openBatch (example_env 1 200 0) s1 = Inr s2"
    "id' (currentBatch s1) = 2" "id' (currentBatch s2) = 3"
    "events s2 = [BatchOpened 2, BatchClosed 2, BatchOpened 3]"
    unfolding v by auto
  with h show ?thesis by blast
qed

subsection \<open>Requesting a decryption\<close>

text \<open>
  Against claim C6 as it is written. On the instance as deployed (batch 1, closed, no
  submission) the owner's request after the cooldown reverts with the message
  \<^verbatim>\<open>No data to decrypt\<close>, an \<^verbatim>\<open>Error(string)\<close>; the contract declares no
  error \<^verbatim>\<open>NoDataToDecrypt\<close>.
\<close>

theorem requestBatchDecryption_empty_counterexample:
  "msg_sender (example_env 1 600 77) = owner fresh \<and> \<not> paused fresh \<and>
   unat (lastDecryptionRequestTime fresh (msg_sender (example_env 1 600 77)))
     + unat (cooldownSeconds fresh) \<le> unat (block_timestamp (example_env 1 600 77)) \<and>
   \<not> isOpen (currentBatch fresh) \<and> submissionCount (currentBatch fresh) = 0 \<and>
   requestBatchDecryption example_lib (example_env 1 600 77) fresh
     = Inl (Error ''No data to decrypt'') \<and>
   \<not> is_custom_error (Error ''No data to decrypt'')"
  by (simp add: evaluation)

text \<open>
  Claim C6, amended. Called by the owner while the instance is not paused and the owner's
  decryption cooldown has passed, \<^verbatim>\<open>requestBatchDecryption\<close> reverts with
  \<^verbatim>\<open>BatchNotOpen\<close> when the current batch is still open, reverts with the message
  \<^verbatim>\<open>No data to decrypt\<close> (an \<^verbatim>\<open>Error(string)\<close>, not a declared error) when
  the closed batch has \<^verbatim>\<open>submissionCount\<close> 0, and otherwise commits: it makes
  exactly one request to the oracle (the two aggregate handles), stores under the
  returned request id a context with the batch id, the hash and
  \<^verbatim>\<open>processed = false\<close>, emits \<^verbatim>\<open>DecryptionRequested\<close>, and records the time
  of the request.
\<close>

theorem requestBatchDecryption_outcomes:
  assumes "msg_sender e = owner s" and "\<not> paused s"
    and "unat (lastDecryptionRequestTime s (msg_sender e)) + unat (cooldownSeconds s)
           \<le> unat (block_timestamp e)"
  shows "(isOpen (currentBatch s) \<longrightarrow> requestBatchDecryption L e s = Inl BatchNotOpen) \<and>
    (\<not> isOpen (currentBatch s) \<and> submissionCount (currentBatch s) = 0 \<longrightarrow>
       requestBatchDecryption L e s = Inl (Error ''No data to decrypt'')) \<and>
    (\<not> isOpen (currentBatch s) \<and> submissionCount (currentBatch s) \<noteq> 0 \<longrightarrow>
       (let cts = [FHE_toBytes32 L (totalEncryptedCongestionScore (currentBatch s)),
                   FHE_toBytes32 L (totalEncryptedEcoScore (currentBatch s))];
            requestId = FHE_requestDecryption e cts
        in requestBatchDecryption L e s =
             Inr (s\<lparr>oracleRequests := oracleRequests s @ [cts],
                    decryptionContexts := (decryptionContexts s)
                      (requestId := \<lparr>batchId = id' (currentBatch s),
                                     stateHash = keccak256 L (abi_encode cts (address_this s)),
                                     processed = False\<rparr>),
                    events := events s @ [DecryptionRequested requestId (id' (currentBatch s))],
                    lastDecryptionRequestTime :=
                      (lastDecryptionRequestTime s)(msg_sender e := block_timestamp e)\<rparr>)))"
proof -
  have b: "unat (block_timestamp e) < 2 ^ 256"
    using unsigned_less [of "block_timestamp e"] by simp
  with assms(3) have c: "checked_add (lastDecryptionRequestTime s (msg_sender e)) (cooldownSeconds s)
      = Inr (lastDecryptionRequestTime s (msg_sender e) + cooldownSeconds s)"
    by (simp add: checked_add_def)
  from assms(3) b have d: "\<not> block_timestamp e < lastDecryptionRequestTime s (msg_sender e) + cooldownSeconds s"
    by (simp add: word_less_nat_alt unat_word_ariths)
  show ?thesis
    using assms(1,2) c d
    by (simp add: requestBatchDecryption_def onlyOwner_def whenNotPaused_def
        decryptionRateLimited_def emit_def hashCiphertexts_def Let_def)
qed

theorem requestBatchDecryption_outcomes_witness:
  "msg_sender (example_env 1 600 77) = owner closed \<and> \<not> paused closed \<and>
   unat (lastDecryptionRequestTime closed (msg_sender (example_env 1 600 77)))
     + unat (cooldownSeconds closed) \<le> unat (block_timestamp (example_env 1 600 77)) \<and>
   requestBatchDecryption example_lib (example_env 1 600 77) opened = Inl BatchNotOpen \<and>
   requestBatchDecryption example_lib (example_env 1 600 77) fresh = Inl (Error ''No data to decrypt'') \<and>
   (\<exists>s'. requestBatchDecryption example_lib (example_env 1 600 77) closed = Inr s' \<and>
      oracleRequests s' = [[10, 6]] \<and>
      decryptionContexts s' 77 = \<lparr>batchId = 2, stateHash = 259779758, processed = False\<rparr>)"
proof -
  have h: "msg_sender (example_env 1 600 77) = owner closed" "\<not> paused closed"
    "unat (lastDecryptionRequestTime closed (msg_sender (example_env 1 600 77)))
     + unat (cooldownSeconds closed) \<le> unat (block_timestamp (example_env 1 600 77))"
    by (simp_all add: evaluation)
  have h1: "msg_sender (example_env 1 600 77) = owner opened" "\<not> paused opened"
    "unat (lastDecryptionRequestTime opened (msg_sender (example_env 1 600 77)))
     + unat (cooldownSeconds opened) \<le> unat (block_timestamp (example_env 1 600 77))"
    by (simp_all add: evaluation)
  have h2: "msg_sender (example_env 1 600 77) = owner fresh" "\<not> paused fresh"
    "unat (lastDecryptionRequestTime fresh (msg_sender (example_env 1 600 77)))
     + unat (cooldownSeconds fresh) \<le> unat (block_timestamp (example_env 1 600 77))"
    by (simp_all add: evaluation)
  have v: "isOpen (currentBatch opened)" "\<not> isOpen (currentBatch fresh)"
    "submissionCount (currentBatch fresh) = 0" "\<not> isOpen (currentBatch closed)"
    "submissionCount (currentBatch closed) \<noteq> 0"
    by (simp_all add: evaluation)
  have w: "oracleRequests closed = []" "id' (currentBatch closed) = 2" "address_this closed = 9"
    "totalEncryptedCongestionScore (currentBatch closed) = 10"
    "totalEncryptedEcoScore (currentBatch closed) = 6"
    by (simp_all add: evaluation)
  from requestBatchDecryption_outcomes [OF h1, of example_lib] v
  have a: "requestBatchDecryption example_lib (example_env 1 600 77) opened = Inl BatchNotOpen"
    by simp
  from requestBatchDecryption_outcomes [OF h2, of example_lib] v
  have b: "requestBatchDecryption example_lib (example_env 1 600 77) fresh = Inl (Error ''No data to decrypt'')"
    by simp
  from requestBatchDecryption_outcomes [OF h, of example_lib] v
  have c: "\<exists>s'. requestBatchDecryption example_lib (example_env 1 600 77) closed = Inr s' \<and>
      oracleRequests s' = [[10, 6]] \<and>
      decryptionContexts s' 77 = \<lparr>batchId = 2, stateHash = 259779758, processed = False\<rparr>"
    by (simp add: w Let_def example_lib_def example_env_def abi_encode_def)
  from h a b c show ?thesis by simp
qed

subsection \<open>The state hash\<close>

text \<open>
  Against claim C1 as it is written. After the request of the scenario the owner opens
  the next batch. The hash of the current aggregates now differs from the one stored
  for request 77, and the callback for 77 reverts, with \<^verbatim>\<open>InvalidBatchId\<close> and
  not with \<^verbatim>\<open>StateMismatch\<close>: the batch id is compared before the hashes are.
\<close>

theorem stateHash_precedence_counterexample:
  "openBatch (example_env 1 700 0) requested = Inr reopened \<and>
   id' (currentBatch reopened) = 3 \<and> batchId (decryptionContexts reopened 77) = 2 \<and>
   aggregateHash example_lib reopened \<noteq> stateHash (decryptionContexts reopened 77) \<and>
   myCallback example_lib (example_env 5 800 0) 77 cleartexts_10_6 [1] reopened = Inl InvalidBatchId"
  by (simp add: evaluation reopened_def)

text \<open>
  Claim C1, amended. A decryption request that commits stores, under the request id the
  oracle returned, the hash of the ABI encoding of the two aggregate handles and the
  instance's address, an encoding that determines both the handles and the address, and
  leaves the batch as it was. \<^verbatim>\<open>myCallback\<close> compares the hashes only after its
  checks of the request id, of \<^verbatim>\<open>processed\<close> and of the batch id. A callback for
  which the hash of the current aggregates differs from the stored one never commits: it
  reverts with the message \<^verbatim>\<open>Invalid request ID\<close> when the request id is 0,
  else with \<^verbatim>\<open>ReplayAttempt\<close> when the context is processed, else with
  \<^verbatim>\<open>InvalidBatchId\<close> when the batch id is not the context's, and else with
  \<^verbatim>\<open>StateMismatch\<close>. So after a request that was given an id other than 0, a
  callback on a storage that still holds that context, batch id and address but whose
  aggregates hash differently reverts with \<^verbatim>\<open>StateMismatch\<close>. No run of calls from the constructor reaches
  such a storage: there \<^verbatim>\<open>myCallback\<close> never reverts with
  \<^verbatim>\<open>StateMismatch\<close>.
\<close>

theorem stateHash_binding:
  "(requestBatchDecryption L e s = Inr s' \<longrightarrow>
      decryptionContexts s' (FHE_requestDecryption e (aggregateHandles L s)) =
        \<lparr>batchId = id' (currentBatch s),
         stateHash = keccak256 L (abi_encode (aggregateHandles L s) (address_this s)),
         processed = False\<rparr> \<and>
      currentBatch s' = currentBatch s \<and> address_this s' = address_this s) \<and>
   (abi_encode cts a = abi_encode cts' a' \<longrightarrow> cts = cts' \<and> a = a') \<and>
   (aggregateHash L t \<noteq> stateHash (decryptionContexts t r) \<longrightarrow>
      myCallback L e' r c p t =
        Inl (if r = 0 then Error ''Invalid request ID''
             else if processed (decryptionContexts t r) then ReplayAttempt
             else if id' (currentBatch t) \<noteq> batchId (decryptionContexts t r) then InvalidBatchId
             else StateMismatch)) \<and>
   (requestBatchDecryption L e s = Inr s' \<and> r = FHE_requestDecryption e (aggregateHandles L s) \<and>
    r \<noteq> 0 \<and> decryptionContexts t r = decryptionContexts s' r \<and>
    id' (currentBatch t) = id' (currentBatch s') \<and> address_this t = address_this s' \<and>
    keccak256 L (abi_encode (aggregateHandles L t) (address_this s)) \<noteq>
      keccak256 L (abi_encode (aggregateHandles L s) (address_this s)) \<longrightarrow>
      myCallback L e' r c p t = Inl StateMismatch) \<and>
   myCallback L e' r c p (run L txs (constructor d a)) \<noteq> Inl StateMismatch"
proof -
  have req: "decryptionContexts s' (FHE_requestDecryption e (aggregateHandles L s)) =
        \<lparr>batchId = id' (currentBatch s),
         stateHash = keccak256 L (abi_encode (aggregateHandles L s) (address_this s)),
         processed = False\<rparr> \<and>
      currentBatch s' = currentBatch s \<and> address_this s' = address_this s"
    if "requestBatchDecryption L e s = Inr s'"
    using requestBatchDecryption_Inr [OF that]
    by (simp add: aggregateHash_def hashCiphertexts_def)
  have mis: "myCallback L e' r c p t =
        Inl (if r = 0 then Error ''Invalid request ID''
             else if processed (decryptionContexts t r) then ReplayAttempt
             else if id' (currentBatch t) \<noteq> batchId (decryptionContexts t r) then InvalidBatchId
             else StateMismatch)"
    if "aggregateHash L t \<noteq> stateHash (decryptionContexts t r)" for t r
    using that by (simp add: myCallback_def aggregateHash_def aggregateHandles_def Let_def)
  have e2e: "myCallback L e' r c p t = Inl StateMismatch"
    if h: "requestBatchDecryption L e s = Inr s'" "r = FHE_requestDecryption e (aggregateHandles L s)"
      "r \<noteq> 0" "decryptionContexts t r = decryptionContexts s' r"
      "id' (currentBatch t) = id' (currentBatch s')" "address_this t = address_this s'"
      "keccak256 L (abi_encode (aggregateHandles L t) (address_this s)) \<noteq>
         keccak256 L (abi_encode (aggregateHandles L s) (address_this s))"
  proof -
    from req [OF h(1)] h(2,4) have ctx: "decryptionContexts t r =
        \<lparr>batchId = id' (currentBatch s),
         stateHash = keccak256 L (abi_encode (aggregateHandles L s) (address_this s)),
         processed = False\<rparr>"
      and same: "currentBatch s' = currentBatch s" "address_this s' = address_this s"
      by simp_all
    have d: "aggregateHash L t \<noteq> stateHash (decryptionContexts t r)"
      using h(6,7) same by (simp add: ctx aggregateHash_def hashCiphertexts_def)
    from mis [OF d] h(3,5) same show ?thesis by (simp add: ctx)
  qed
  from req abi_encode_inj [of cts a cts' a'] mis [of t r] e2e
    stateMismatch_unreachable [of L e' r c p txs d a]
  show ?thesis by blast
qed

text \<open>
  The theorem at work: on the request of the scenario, on the same scenario at another
  address (another hash), on the reopened state of the run above, and on the storage
  whose congestion total was overwritten by hand, the adversarial mutation that the
  specification asks a test to construct.
\<close>

theorem stateHash_binding_witness:
  "requestBatchDecryption example_lib (example_env 1 600 77) closed = Inr requested \<and>
   FHE_requestDecryption (example_env 1 600 77) (aggregateHandles example_lib closed) = 77 \<and>
   stateHash (decryptionContexts requested 77) = aggregateHash example_lib closed \<and>
   stateHash (decryptionContexts requested 77) \<noteq> stateHash (decryptionContexts elsewhere 77) \<and>
   abi_encode [10, 6] 9 \<noteq> abi_encode [10, 6] 8 \<and>
   aggregateHash example_lib reopened \<noteq> stateHash (decryptionContexts reopened 77) \<and>
   myCallback example_lib (example_env 5 800 0) 77 cleartexts_10_6 [1] reopened = Inl InvalidBatchId \<and>
   (77 :: uint256) \<noteq> 0 \<and> decryptionContexts tampered 77 = decryptionContexts requested 77 \<and>
   id' (currentBatch tampered) = id' (currentBatch requested) \<and>
   address_this tampered = address_this requested \<and>
   aggregateHash example_lib tampered \<noteq> aggregateHash example_lib closed \<and>
   myCallback example_lib (example_env 5 700 0) 77 cleartexts_10_6 [1] tampered = Inl StateMismatch"
proof -
  have a: "requestBatchDecryption example_lib (example_env 1 600 77) closed = Inr requested"
    by (simp add: evaluation)
  have b: "FHE_requestDecryption (example_env 1 600 77) (aggregateHandles example_lib closed) = 77"
    by (simp add: example_env_def)
  have c: "decryptionContexts tampered 77 = decryptionContexts requested 77"
    "id' (currentBatch tampered) = id' (currentBatch requested)"
    "address_this tampered = address_this requested"
    by (simp_all add: tampered_def)
  have d: "aggregateHash example_lib tampered \<noteq> aggregateHash example_lib closed"
    by (simp add: evaluation tampered_def)
  have d': "keccak256 example_lib (abi_encode (aggregateHandles example_lib tampered) (address_this closed)) \<noteq>
      keccak256 example_lib (abi_encode (aggregateHandles example_lib closed) (address_this closed))"
    by (simp add: evaluation tampered_def)
  have o: "aggregateHash example_lib reopened \<noteq> stateHash (decryptionContexts reopened 77)"
    "(77 :: uint256) \<noteq> 0" "\<not> processed (decryptionContexts reopened 77)"
    "id' (currentBatch reopened) \<noteq> batchId (decryptionContexts reopened 77)"
    by (simp_all add: evaluation reopened_def)
  have x: "stateHash (decryptionContexts requested 77) \<noteq> stateHash (decryptionContexts elsewhere 77)"
    by (simp add: evaluation elsewhere_def)
  note t = stateHash_binding [where L = example_lib and e = "example_env 1 600 77" and s = closed
      and s' = requested and t = tampered and r = 77 and e' = "example_env 5 700 0"
      and c = cleartexts_10_6 and p = "[1]"]
  from t a b have e: "stateHash (decryptionContexts requested 77) = aggregateHash example_lib closed"
    by (simp add: aggregateHash_def hashCiphertexts_def)
  from t a b c d' have f:
    "myCallback example_lib (example_env 5 700 0) 77 cleartexts_10_6 [1] tampered = Inl StateMismatch"
    by simp
  from stateHash_binding [where L = example_lib and t = reopened and r = 77 and e' = "example_env 5 800 0"
      and c = cleartexts_10_6 and p = "[1]"] o
  have g: "myCallback example_lib (example_env 5 800 0) 77 cleartexts_10_6 [1] reopened = Inl InvalidBatchId"
    by simp
  from stateHash_binding [where cts = "[10, 6]" and a = 9 and cts' = "[10, 6]" and a' = 8]
  have h: "abi_encode [10, 6] 9 \<noteq> abi_encode [10, 6] 8"
    by auto
  from a b c d e f g h o x show ?thesis by simp
qed

subsection \<open>Replay protection\<close>

text \<open>
  Claim C2. A callback that commits finds \<^verbatim>\<open>processed\<close> false and leaves it true.
  A callback for a request id whose context is processed reverts with
  \<^verbatim>\<open>ReplayAttempt\<close> and changes nothing; this still holds after any run of
  transactions in which the oracle hands out no request with that id again. Only a
  callback for that request id turns \<^verbatim>\<open>processed\<close> from false to true.
\<close>

theorem processed_exactly_once:
  "(myCallback L e r c p s = Inr s' \<longrightarrow>
      \<not> processed (decryptionContexts s r) \<and> processed (decryptionContexts s' r)) \<and>
   (r \<noteq> 0 \<and> processed (decryptionContexts s r) \<longrightarrow>
      myCallback L e r c p s = Inl ReplayAttempt \<and> transact L e (MyCallback r c p) s = s) \<and>
   (myCallback L e r c p s = Inr s' \<and> \<not> issues L r txs s' \<longrightarrow>
      myCallback L e' r c' p' (run L txs s') = Inl ReplayAttempt \<and>
      transact L e' (MyCallback r c' p') (run L txs s') = run L txs s') \<and>
   (\<not> processed (decryptionContexts s r) \<and> processed (decryptionContexts (transact L e1 c1 s) r)
      \<and> issued L e1 c1 s \<noteq> Some r \<longrightarrow> (\<exists>x y. c1 = MyCallback r x y))"
proof -
  have a: "\<not> processed (decryptionContexts s r) \<and> processed (decryptionContexts s' r) \<and> r \<noteq> 0"
    if "myCallback L e r c p s = Inr s'"
    using contexts_callback [OF that] by simp
  have b: "myCallback L e r c p s = Inl ReplayAttempt \<and> transact L e (MyCallback r c p) s = s"
    if "r \<noteq> 0" "processed (decryptionContexts s r)" for e c p s
    using callback_replay [OF that] by (simp add: transact_def)
  have c: "myCallback L e' r c' p' (run L txs s') = Inl ReplayAttempt \<and>
      transact L e' (MyCallback r c' p') (run L txs s') = run L txs s'"
    if "myCallback L e r c p s = Inr s'" "\<not> issues L r txs s'"
    using a [OF that(1)] processed_run [of s' r L txs] that(2) by (intro b) simp_all
  have d: "\<exists>x y. c1 = MyCallback r x y"
    if "\<not> processed (decryptionContexts s r)" "processed (decryptionContexts (transact L e1 c1 s) r)"
      "issued L e1 c1 s \<noteq> Some r"
    using contexts_step [OF that(3)] that(1,2) by auto
  from a b c d show ?thesis by blast
qed

theorem processed_exactly_once_witness:
  "myCallback example_lib (example_env 5 700 0) 77 cleartexts_10_6 [1] requested = Inr completed \<and>
   \<not> processed (decryptionContexts requested 77) \<and> processed (decryptionContexts completed 77) \<and>
   (77 :: uint256) \<noteq> 0 \<and>
   \<not> issues example_lib 77 [(example_env 1 800 0, OpenBatch)] completed \<and>
   myCallback example_lib (example_env 5 900 0) 77 cleartexts_10_6 [1]
     (run example_lib [(example_env 1 800 0, OpenBatch)] completed) = Inl ReplayAttempt \<and>
   myCallback example_lib (example_env 5 900 0) 77 cleartexts_10_6 [1] completed = Inl ReplayAttempt"
proof -
  have a: "myCallback example_lib (example_env 5 700 0) 77 cleartexts_10_6 [1] requested = Inr completed"
    by (simp add: evaluation abi_decode_cleartexts_10_6)
  have b: "\<not> issues example_lib 77 [(example_env 1 800 0, OpenBatch)] completed"
    by (simp add: issued_def)
  note t = processed_exactly_once [of example_lib "example_env 5 700 0" 77 cleartexts_10_6 "[1]" requested completed
      "[(example_env 1 800 0, OpenBatch)]" "example_env 5 900 0" cleartexts_10_6 "[1]"]
  from t a have c: "\<not> processed (decryptionContexts requested 77)"
    "processed (decryptionContexts completed 77)"
    by simp_all
  from t a b have d: "myCallback example_lib (example_env 5 900 0) 77 cleartexts_10_6 [1]
     (run example_lib [(example_env 1 800 0, OpenBatch)] completed) = Inl ReplayAttempt"
    by simp
  from processed_exactly_once [of example_lib "example_env 5 900 0" 77 cleartexts_10_6 "[1]" completed] c
  have e: "myCallback example_lib (example_env 5 900 0) 77 cleartexts_10_6 [1] completed = Inl ReplayAttempt"
    by simp
  from a b c d e show ?thesis by simp
qed

subsection \<open>Request ids that were never issued\<close>

text \<open>
  Against claim C3 as it is written. In the scenario the oracle issued request id 77 and
  never 5; the callback for 5 reverts with \<^verbatim>\<open>InvalidBatchId\<close>. The contract does
  not test whether a context exists and declares no error for an unknown request.
\<close>

theorem unissued_request_counterexample:
  "\<not> issues example_lib 5 scenario fresh \<and> requested = run example_lib scenario fresh \<and>
   myCallback example_lib (example_env 5 700 0) 5 cleartexts_10_6 [1] requested = Inl InvalidBatchId"
proof -
  have "\<not> issues example_lib 5 scenario fresh"
    by (simp add: issued_def evaluation)
  moreover have "myCallback example_lib (example_env 5 700 0) 5 cleartexts_10_6 [1] requested = Inl InvalidBatchId"
    by (simp add: evaluation)
  ultimately show ?thesis by (simp add: requested_def)
qed

text \<open>
  Claim C3, amended. For a request id that no decryption request was ever issued with,
  the stored context is the zero context (batch id 0), and \<^verbatim>\<open>myCallback\<close> reverts:
  with \<^verbatim>\<open>InvalidBatchId\<close>, since the current batch id is never 0, and with the
  message \<^verbatim>\<open>Invalid request ID\<close> when the request id is 0. This holds after every
  run of transactions from the constructor.
\<close>

theorem unissued_request_rejected:
  "(id' (currentBatch s) \<noteq> 0 \<and>
    decryptionContexts s r = \<lparr>batchId = 0, stateHash = 0, processed = False\<rparr> \<longrightarrow>
      myCallback L e r c p s = Inl (if r = 0 then Error ''Invalid request ID'' else InvalidBatchId)) \<and>
   (\<not> issues L r txs (constructor d a) \<longrightarrow>
      decryptionContexts (run L txs (constructor d a)) r =
        \<lparr>batchId = 0, stateHash = 0, processed = False\<rparr> \<and>
      myCallback L e r c p (run L txs (constructor d a)) =
        Inl (if r = 0 then Error ''Invalid request ID'' else InvalidBatchId))"
proof -
  have a: "myCallback L e r c p s = Inl (if r = 0 then Error ''Invalid request ID'' else InvalidBatchId)"
    if "id' (currentBatch s) \<noteq> 0"
      "decryptionContexts s r = \<lparr>batchId = 0, stateHash = 0, processed = False\<rparr>" for s
    using that by (simp add: myCallback_def)
  have b: "id' (currentBatch (run L txs (constructor d a))) \<noteq> 0 \<and>
      decryptionContexts (run L txs (constructor d a)) r =
        \<lparr>batchId = 0, stateHash = 0, processed = False\<rparr>"
    if "\<not> issues L r txs (constructor d a)"
    using that by (intro inv_run) (simp_all add: constructor_def)
  from a b show ?thesis by blast
qed

theorem unissued_request_rejected_witness:
  "\<not> issues example_lib 5 scenario (constructor (example_env 1 0 0) 9) \<and>
   myCallback example_lib (example_env 5 700 0) 5 cleartexts_10_6 [1]
     (run example_lib scenario (constructor (example_env 1 0 0) 9)) = Inl InvalidBatchId \<and>
   \<not> issues example_lib 0 scenario (constructor (example_env 1 0 0) 9) \<and>
   myCallback example_lib (example_env 5 700 0) 0 cleartexts_10_6 [1]
     (run example_lib scenario (constructor (example_env 1 0 0) 9)) = Inl (Error ''Invalid request ID'')"
proof -
  have a: "\<not> issues example_lib 5 scenario (constructor (example_env 1 0 0) 9)"
    "\<not> issues example_lib 0 scenario (constructor (example_env 1 0 0) 9)"
    by (simp_all add: issued_def evaluation)
  from a
    unissued_request_rejected [where L = example_lib and r = 5 and txs = scenario and d = "example_env 1 0 0" and a = 9]
    unissued_request_rejected [where L = example_lib and r = 0 and txs = scenario and d = "example_env 1 0 0" and a = 9]
  show ?thesis by simp
qed

subsection \<open>Who may call back\<close>

text \<open>
  Against claim C4 as it is written. Two different accounts, neither of them the owner
  or a provider, deliver the same callback on the requested state: both calls commit.
  Whichever account the oracle is, a caller that is not the oracle is accepted.
\<close>

theorem callback_caller_counterexample:
  "msg_sender (example_env 5 700 0) \<noteq> msg_sender (example_env 6 700 0) \<and>
   myCallback example_lib (example_env 5 700 0) 77 cleartexts_10_6 [1] requested = Inr completed \<and>
   myCallback example_lib (example_env 6 700 0) 77 cleartexts_10_6 [1] requested = Inr completed \<and>
   events completed = events requested @ [DecryptionCompleted 77 2 10 6]"
  by (simp add: evaluation abi_decode_cleartexts_10_6)

text \<open>
  Claim C4, amended. \<^verbatim>\<open>myCallback\<close> is public and does not look at its caller:
  its result is the same for every sender. It commits exactly when the request id is not
  zero, its context is not processed, the context's batch id and hash are those of the
  current batch, \<^verbatim>\<open>FHE.checkSignatures\<close> accepts the proof and the cleartexts
  decode.
\<close>

theorem myCallback_any_caller:
  "myCallback L (e\<lparr>msg_sender := a\<rparr>) r c p s = myCallback L e r c p s \<and>
   ((\<exists>s'. myCallback L e r c p s = Inr s') =
      (r \<noteq> 0 \<and> \<not> processed (decryptionContexts s r) \<and>
       id' (currentBatch s) = batchId (decryptionContexts s r) \<and>
       aggregateHash L s = stateHash (decryptionContexts s r) \<and>
       FHE_checkSignatures e r c p \<and> abi_decode c \<noteq> None))"
proof
  show "myCallback L (e\<lparr>msg_sender := a\<rparr>) r c p s = myCallback L e r c p s"
    by (simp add: myCallback_def cong: if_cong)
  show "(\<exists>s'. myCallback L e r c p s = Inr s') =
      (r \<noteq> 0 \<and> \<not> processed (decryptionContexts s r) \<and>
       id' (currentBatch s) = batchId (decryptionContexts s r) \<and>
       aggregateHash L s = stateHash (decryptionContexts s r) \<and>
       FHE_checkSignatures e r c p \<and> abi_decode c \<noteq> None)"
    by (auto simp: myCallback_def aggregateHash_def aggregateHandles_def Let_def
        split: option.splits prod.splits)
qed

theorem myCallback_any_caller_witness:
  "myCallback example_lib ((example_env 1 700 0)\<lparr>msg_sender := 5\<rparr>) 77 cleartexts_10_6 [1] requested =
     myCallback example_lib (example_env 1 700 0) 77 cleartexts_10_6 [1] requested \<and>
   (\<exists>s'. myCallback example_lib ((example_env 1 700 0)\<lparr>msg_sender := 5\<rparr>) 77 cleartexts_10_6 [1] requested = Inr s')"
proof -
  have v: "\<not> processed (decryptionContexts requested 77)"
    "id' (currentBatch requested) = batchId (decryptionContexts requested 77)"
    "aggregateHash example_lib requested = stateHash (decryptionContexts requested 77)"
    by (simp_all add: evaluation)
  have w: "FHE_checkSignatures ((example_env 1 700 0)\<lparr>msg_sender := 5\<rparr>) 77 cleartexts_10_6 [1]"
    by (simp add: example_env_def)
  from myCallback_any_caller [where L = example_lib and e = "example_env 1 700 0" and a = 5 and r = 77
      and c = cleartexts_10_6 and p = "[1]" and s = requested]
  have a: "myCallback example_lib ((example_env 1 700 0)\<lparr>msg_sender := 5\<rparr>) 77 cleartexts_10_6 [1] requested =
     myCallback example_lib (example_env 1 700 0) 77 cleartexts_10_6 [1] requested"
    by simp
  from myCallback_any_caller [where L = example_lib and e = "(example_env 1 700 0)\<lparr>msg_sender := 5\<rparr>" and r = 77
      and c = cleartexts_10_6 and p = "[1]" and s = requested] v w
  have b: "\<exists>s'. myCallback example_lib ((example_env 1 700 0)\<lparr>msg_sender := 5\<rparr>) 77 cleartexts_10_6 [1] requested = Inr s'"
    by (simp add: abi_decode_cleartexts_10_6)
  from a b show ?thesis by simp
qed

subsection \<open>Cooldowns\<close>




subsection \<open>The kinds of failure\<close>




end
